theory Spec2Isabelle
  imports Complex_Main
begin

section \<open>Content model (types.ts)\<close>

text \<open>
  JavaScript strings are modelled as \<^typ>\<open>string\<close>. A content block is the tagged union of
  \<^verbatim>\<open>BookSection.content\<close>: a bare string is a paragraph, the other four variants carry a
  \<^verbatim>\<open>type\<close> tag. The optional \<^verbatim>\<open>source\<close> of a quote is an \<^typ>\<open>string option\<close>.
\<close>

datatype block =
    Paragraph string
  | Header string
  | ListBlock "string list"
  | Quote string "string option"
  | Footnote string

record bookSection =
  s_id :: string
  s_title :: string
  s_content :: "block list"

record bookChapter =
  c_id :: string
  c_title :: string
  sections :: "bookSection list"

section \<open>Bookmark toggle (App.tsx, toggleBookmark)\<close>

text \<open>
  The updater passed to \<^verbatim>\<open>setBookmarks\<close>: \<^verbatim>\<open>prev.includes(sectionId)\<close> selects between
  \<^verbatim>\<open>prev.filter(id => id !== sectionId)\<close> and \<^verbatim>\<open>[...prev, sectionId]\<close>.
\<close>

definition toggleBookmark :: "string \<Rightarrow> string list \<Rightarrow> string list" where
  "toggleBookmark sectionId prev =
     (if sectionId \<in> set prev then filter (\<lambda>i. i \<noteq> sectionId) prev
      else prev @ [sectionId])"

section \<open>Narration text (Reader, extractText)\<close>

definition nl :: char where
  "nl = CHR 0x0A"

text \<open>
  One iteration of the outer \<^verbatim>\<open>forEach\<close>: the text accumulated so far and a block give the
  new text. The list branch is the inner \<^verbatim>\<open>forEach\<close> over the items; the footnote branch
  adds nothing.
\<close>

fun addBlock :: "string \<Rightarrow> block \<Rightarrow> string" where
  "addBlock tx (Paragraph b) = tx @ b @ '' '' @ [nl]"
| "addBlock tx (Header t) = tx @ t @ ''. '' @ [nl]"
| "addBlock tx (ListBlock items) = foldl (\<lambda>acc item. acc @ item @ ''. '' @ [nl]) tx items"
| "addBlock tx (Quote t src) = tx @ t @ ''. '' @ [nl]"
| "addBlock tx (Footnote t) = tx"

definition extractText :: "bookSection \<Rightarrow> string" where
  "extractText sec = foldl addBlock (s_title sec @ ''. '' @ [nl, nl]) (s_content sec)"

fun is_footnote :: "block \<Rightarrow> bool" where
  "is_footnote (Footnote t) = True"
| "is_footnote b = False"

fun drop_source :: "block \<Rightarrow> block" where
  "drop_source (Quote t src) = Quote t None"
| "drop_source b = b"

text \<open>
  The narration of one block as the specification words it, to be compared with what
  \<^verbatim>\<open>extractText\<close> computes: a paragraph is read as it is, a header and a quote are read
  with a period, every item of a list is a line of its own, a footnote is not read. Each line
  ends with a space and a newline.
\<close>

fun blockNarration :: "block \<Rightarrow> string" where
  "blockNarration (Paragraph b) = b @ '' '' @ [nl]"
| "blockNarration (Header t) = t @ ''. '' @ [nl]"
| "blockNarration (ListBlock items) = concat (map (\<lambda>item. item @ ''. '' @ [nl]) items)"
| "blockNarration (Quote t src) = t @ ''. '' @ [nl]"
| "blockNarration (Footnote t) = []"

text \<open>
  The rendered view (the \<^verbatim>\<open>section.content.map\<close> of the Reader), kept as the text nodes it
  shows, in document order. A quote shows its text and, when \<^verbatim>\<open>block.source\<close> is truthy
  (present and not the empty string), its source in a caption. The label of a footnote is kept
  as its UTF-8 bytes.
\<close>

definition footnote_label :: string where
  "footnote_label = [CHR 0xD0, CHR 0xA1, CHR 0xD0, CHR 0xBD, CHR 0xD0, CHR 0xBE, CHR 0xD1, CHR 0x81,
     CHR 0xD0, CHR 0xBA, CHR 0xD0, CHR 0xB0, CHR '':'']"

fun renderBlock :: "block \<Rightarrow> string list" where
  "renderBlock (Paragraph b) = [b]"
| "renderBlock (Header t) = [t]"
| "renderBlock (ListBlock items) = items"
| "renderBlock (Quote t src) =
     (case src of
        None \<Rightarrow> [t]
      | Some source \<Rightarrow> if source = [] then [t] else [t, source])"
| "renderBlock (Footnote t) = [footnote_label, t]"

definition renderContent :: "bookSection \<Rightarrow> string list" where
  "renderContent sec = concat (map renderBlock (s_content sec))"

section \<open>Navigation (App.tsx)\<close>

text \<open>
  \<^verbatim>\<open>Array.prototype.findIndex\<close> scans from index 0 and returns -1 when no element satisfies
  the predicate; \<open>js_nth xs i\<close> is the read \<^verbatim>\<open>xs[i]\<close>, which is \<^verbatim>\<open>undefined\<close> (here \<open>None\<close>)
  out of range. Reading a property of \<^verbatim>\<open>undefined\<close> throws a \<^verbatim>\<open>TypeError\<close>.
\<close>

datatype js_error = TypeError

fun findIndexFrom :: "('a \<Rightarrow> bool) \<Rightarrow> int \<Rightarrow> 'a list \<Rightarrow> int" where
  "findIndexFrom P i [] = - 1"
| "findIndexFrom P i (x # xs) = (if P x then i else findIndexFrom P (i + 1) xs)"

definition findIndex :: "('a \<Rightarrow> bool) \<Rightarrow> 'a list \<Rightarrow> int" where
  "findIndex P xs = findIndexFrom P 0 xs"

definition js_nth :: "'a list \<Rightarrow> int \<Rightarrow> 'a option" where
  "js_nth xs i = (if 0 \<le> i \<and> i < int (length xs) then Some (xs ! nat i) else None)"

record chapterInfo =
  info_title :: string
  info_index :: int
  info_total :: nat
  info_section :: "bookSection option"

text \<open>The \<^verbatim>\<open>for (const chapter of bookData)\<close> loop of \<^verbatim>\<open>activeChapterInfo\<close>.\<close>

fun findChapter :: "string \<Rightarrow> bookChapter list \<Rightarrow> chapterInfo option" where
  "findChapter activeSectionId [] = None"
| "findChapter activeSectionId (chapter # rest) =
     (let index = findIndex (\<lambda>s. s_id s = activeSectionId) (sections chapter) in
      if index \<noteq> - 1
      then Some \<lparr>info_title = c_title chapter, info_index = index,
                 info_total = length (sections chapter),
                 info_section = js_nth (sections chapter) index\<rparr>
      else findChapter activeSectionId rest)"

text \<open>
  \<^verbatim>\<open>activeChapterInfo\<close>: \<^verbatim>\<open>null\<close> in the table-of-contents view, the chapter that holds the
  section otherwise, and the fallback to \<^verbatim>\<open>bookData[0]\<close> when no chapter holds it.
\<close>

definition activeChapterInfo :: "bookChapter list \<Rightarrow> string \<Rightarrow> js_error + chapterInfo option" where
  "activeChapterInfo bookData activeSectionId =
     (if activeSectionId = ''TOC'' then Inr None
      else case findChapter activeSectionId bookData of
          Some info \<Rightarrow> Inr (Some info)
        | None \<Rightarrow>
            (case bookData of
               [] \<Rightarrow> Inl TypeError
             | firstChapter # _ \<Rightarrow>
                 Inr (Some \<lparr>info_title = c_title firstChapter, info_index = 0,
                            info_total = length (sections firstChapter),
                            info_section = js_nth (sections firstChapter) 0\<rparr>)))"

text \<open>
  A navigation target is either a section object of the content model or a fresh object
  holding an id and a title, as the table-of-contents sentinel
  \<^verbatim>\<open>{ id: 'TOC', title: ... }\<close> is. The sentinel's title is kept as its UTF-8 bytes.
\<close>

datatype nav_link = Link string string | Sec bookSection

fun link_id :: "nav_link \<Rightarrow> string" where
  "link_id (Link i t) = i"
| "link_id (Sec s) = s_id s"

definition toc_title :: string where
  "toc_title = [CHR 0xD0, CHR 0x9E, CHR 0xD0, CHR 0xB3, CHR 0xD0, CHR 0xBB, CHR 0xD0, CHR 0xB0,
     CHR 0xD0, CHR 0xB2, CHR 0xD0, CHR 0xBB, CHR 0xD0, CHR 0xB5, CHR 0xD0, CHR 0xBD,
     CHR 0xD0, CHR 0xB8, CHR 0xD0, CHR 0xB5]"

record navigation =
  prevSection :: "nav_link option"
  nextSection :: "nav_link option"

definition allSections :: "bookChapter list \<Rightarrow> bookSection list" where
  "allSections bookData = concat (map sections bookData)"

text \<open>
  The memo that computes \<^verbatim>\<open>prevSection\<close> and \<^verbatim>\<open>nextSection\<close>; \<open>None\<close> is \<^verbatim>\<open>null\<close>.
  In the table-of-contents view \<^verbatim>\<open>allSections[0].id\<close> throws when there is no section.
\<close>

definition prevNextSection :: "bookChapter list \<Rightarrow> string \<Rightarrow> js_error + navigation" where
  "prevNextSection bookData activeSectionId =
     (if activeSectionId = ''TOC''
      then (case allSections bookData of
              [] \<Rightarrow> Inl TypeError
            | s0 # _ \<Rightarrow> Inr \<lparr>prevSection = None,
                              nextSection = Some (Link (s_id s0) (s_title s0))\<rparr>)
      else
        (let currentIndex = findIndex (\<lambda>s. s_id s = activeSectionId) (allSections bookData) in
         Inr \<lparr>prevSection =
                 (if currentIndex > 0
                  then map_option Sec (js_nth (allSections bookData) (currentIndex - 1))
                  else Some (Link ''TOC'' toc_title)),
              nextSection =
                 (if currentIndex < int (length (allSections bookData)) - 1
                  then map_option Sec (js_nth (allSections bookData) (currentIndex + 1))
                  else None)\<rparr>))"

text \<open>
  Following a link is \<^verbatim>\<open>setActiveSectionId(nextSection.id)\<close> (or \<^verbatim>\<open>prevSection.id\<close>):
  the successor and the predecessor of an identifier are the identifiers of the two links.
\<close>

definition successor :: "bookChapter list \<Rightarrow> string \<Rightarrow> string option" where
  "successor bookData x =
     (case prevNextSection bookData x of
        Inl e \<Rightarrow> None
      | Inr nav \<Rightarrow> map_option link_id (nextSection nav))"

definition predecessor :: "bookChapter list \<Rightarrow> string \<Rightarrow> string option" where
  "predecessor bookData x =
     (case prevNextSection bookData x of
        Inl e \<Rightarrow> None
      | Inr nav \<Rightarrow> map_option link_id (prevSection nav))"

section \<open>Settings (App.tsx, the three state initializers)\<close>

text \<open>
  A JavaScript number that holds an integer or \<^verbatim>\<open>NaN\<close>. Integers are kept exact; the
  rounding of doubles beyond 2^53 is not modelled.
\<close>

datatype jsnum = NaN | Num int

text \<open>
  \<^verbatim>\<open>localStorage.getItem(key)\<close> throws (storage blocked), returns \<^verbatim>\<open>null\<close> (no value stored)
  or returns the stored string.
\<close>

datatype storage_read = Throws | Missing | Stored string

text \<open>
  \<^verbatim>\<open>parseInt(saved, 10)\<close>: leading white space is skipped, one sign is read, then the longest
  run of decimal digits; \<^verbatim>\<open>NaN\<close> when there is no digit. It never throws. White space is the
  one-byte part of the ECMAScript set: TAB, LF, VT, FF, CR, SP and NBSP.
\<close>

definition is_space :: "char \<Rightarrow> bool" where
  "is_space c = ((of_char c :: nat) \<in> {9, 10, 11, 12, 13, 32, 160})"

definition is_digit :: "char \<Rightarrow> bool" where
  "is_digit c = (48 \<le> (of_char c :: nat) \<and> (of_char c :: nat) \<le> 57)"

definition digits_value :: "string \<Rightarrow> int" where
  "digits_value ds = foldl (\<lambda>n c. 10 * n + (int (of_char c) - 48)) 0 ds"

fun read_sign :: "string \<Rightarrow> int \<times> string" where
  "read_sign [] = (1, [])"
| "read_sign (c # cs) =
     (if c = CHR ''-'' then (- 1, cs) else if c = CHR ''+'' then (1, cs) else (1, c # cs))"

definition parseInt10 :: "string \<Rightarrow> jsnum" where
  "parseInt10 saved =
     (case read_sign (dropWhile is_space saved) of
        (sign, rest) \<Rightarrow>
          (let ds = takeWhile is_digit rest
           in if ds = [] then NaN else Num (sign * digits_value ds)))"

definition fontSizeIndex_init :: "storage_read \<Rightarrow> jsnum" where
  "fontSizeIndex_init r =
     (case r of
        Throws \<Rightarrow> Num 2
      | Missing \<Rightarrow> Num 2
      | Stored saved \<Rightarrow> parseInt10 saved)"

definition isDarkMode_init :: "storage_read \<Rightarrow> bool" where
  "isDarkMode_init r =
     (case r of
        Throws \<Rightarrow> False
      | Missing \<Rightarrow> False
      | Stored saved \<Rightarrow> saved = ''true'')"

text \<open>
  \<^verbatim>\<open>JSON.parse\<close> is a function of the host; it is a parameter here, \<open>None\<close> when it throws a
  \<^verbatim>\<open>SyntaxError\<close>. Its value is not checked to be an array of strings. The empty string is
  falsy, so it is not parsed.
\<close>

datatype json =
    JNull
  | JBool bool
  | JNumber rat
  | JString string
  | JArray "json list"
  | JObject "(string \<times> json) list"

definition bookmarks_init :: "(string \<Rightarrow> json option) \<Rightarrow> storage_read \<Rightarrow> json" where
  "bookmarks_init JSON_parse r =
     (case r of
        Throws \<Rightarrow> JArray []
      | Missing \<Rightarrow> JArray []
      | Stored saved \<Rightarrow>
          (if saved = [] then JArray []
           else case JSON_parse saved of None \<Rightarrow> JArray [] | Some v \<Rightarrow> v))"

section \<open>Font size (App.tsx, increaseFont and decreaseFont)\<close>

definition FONT_SIZES :: "string list" where
  "FONT_SIZES = [''prose-sm'', ''prose-base'', ''prose-lg'', ''prose-xl'', ''prose-2xl'']"

text \<open>\<^verbatim>\<open>Math.min\<close> and \<^verbatim>\<open>Math.max\<close> return \<^verbatim>\<open>NaN\<close> when an argument is \<^verbatim>\<open>NaN\<close>.\<close>

fun increaseFont :: "jsnum \<Rightarrow> jsnum" where
  "increaseFont NaN = NaN"
| "increaseFont (Num prev) = Num (min (prev + 1) (int (length FONT_SIZES) - 1))"

fun decreaseFont :: "jsnum \<Rightarrow> jsnum" where
  "decreaseFont NaN = NaN"
| "decreaseFont (Num prev) = Num (max (prev - 1) 0)"

datatype font_call = Increase | Decrease

fun font_step :: "jsnum \<Rightarrow> font_call \<Rightarrow> jsnum" where
  "font_step l Increase = increaseFont l"
| "font_step l Decrease = decreaseFont l"

fun level_in_range :: "jsnum \<Rightarrow> bool" where
  "level_in_range NaN = False"
| "level_in_range (Num n) = (0 \<le> n \<and> n \<le> int (length FONT_SIZES) - 1)"

section \<open>Playback (Reader: handlePlay, handleStop and the utterance callbacks)\<close>

text \<open>
  The state of the Reader component that playback reads and writes: the two refs, the four
  state variables, the \<^verbatim>\<open>section\<close> prop, and two logs of what the component asks of its
  environment (the calls on the speech synthesis object, the lines of \<^verbatim>\<open>console.error\<close>).
  \<open>synthRef\<close> tells whether \<^verbatim>\<open>synthRef.current\<close> holds a speech synthesis object;
  \<open>utteranceRef\<close> holds the text of the current utterance. Progress is a percentage, kept as
  a rational number (the rounding of doubles is not modelled; 0 and 100 are exact in both).
\<close>

datatype synth_call = Cancel | Speak string | PauseSpeech | Resume

record reader =
  synthRef :: bool
  utteranceRef :: "string option"
  showPlayer :: bool
  isPlaying :: bool
  isPaused :: bool
  progress :: rat
  sectionProp :: bookSection
  synth_calls :: "synth_call list"
  console :: "string list"

datatype playback = Idle | Playing | Paused

text \<open>The three states, read off the two flags in the order \<^verbatim>\<open>handlePlay\<close> tests them.\<close>

definition playback_state :: "reader \<Rightarrow> playback" where
  "playback_state s = (if isPaused s then Paused else if isPlaying s then Playing else Idle)"

definition handleStop :: "reader \<Rightarrow> reader" where
  "handleStop s =
     s\<lparr>synth_calls := (if synthRef s then synth_calls s @ [Cancel] else synth_calls s),
       isPlaying := False, isPaused := False, progress := 0, utteranceRef := None\<rparr>"

definition handlePlay :: "reader \<Rightarrow> reader" where
  "handlePlay s =
     (if \<not> synthRef s then s
      else if isPaused s
      then s\<lparr>synth_calls := synth_calls s @ [Resume], isPaused := False, isPlaying := True\<rparr>
      else if isPlaying s
      then s\<lparr>synth_calls := synth_calls s @ [PauseSpeech], isPaused := True, isPlaying := False\<rparr>
      else
        (let tx = extractText (sectionProp s) in
         if tx = [] then s
         else s\<lparr>synth_calls := synth_calls s @ [Cancel, Speak tx], utteranceRef := Some tx,
                isPlaying := True, isPaused := False\<rparr>))"

text \<open>
  The callbacks of an utterance; \<open>tx\<close> is the text the utterance was created with, which the
  \<^verbatim>\<open>onboundary\<close> closure keeps. The length of the text counts the characters of the model,
  which are the UTF-16 units of the code for ASCII text only.
\<close>

definition onboundary :: "string \<Rightarrow> string \<Rightarrow> nat \<Rightarrow> reader \<Rightarrow> reader" where
  "onboundary tx name charIndex s =
     (if name = ''word'' \<or> name = ''sentence''
      then
        (let len = (if length tx > 0 then length tx else 1);
             percentage = (of_nat charIndex / of_nat len) * 100
         in s\<lparr>progress := min percentage 100\<rparr>)
      else s)"

definition onend :: "reader \<Rightarrow> reader" where
  "onend s = s\<lparr>isPlaying := False, isPaused := False, progress := 100, utteranceRef := None\<rparr>"

definition onerror :: "string \<Rightarrow> reader \<Rightarrow> reader" where
  "onerror e s =
     (if e = ''canceled'' \<or> e = ''interrupted'' then s
      else s\<lparr>console := console s @ [''Speech synthesis error: '' @ e],
             isPlaying := False, isPaused := False\<rparr>)"

text \<open>The effect on \<^verbatim>\<open>[section.id]\<close>: \<^verbatim>\<open>handleStop(); setShowPlayer(false)\<close>.\<close>

definition sectionEffect :: "reader \<Rightarrow> reader" where
  "sectionEffect s = (handleStop s)\<lparr>showPlayer := False\<rparr>"

text \<open>
  A freshly mounted Reader: the initial values of \<^verbatim>\<open>useState\<close> and \<^verbatim>\<open>useRef\<close>, then the
  two mount effects (the first stores the speech synthesis object when the host has one).
\<close>

definition mount :: "bool \<Rightarrow> bookSection \<Rightarrow> reader" where
  "mount hasSynth sec =
     sectionEffect \<lparr>synthRef = hasSynth, utteranceRef = None, showPlayer = False,
       isPlaying = False, isPaused = False, progress = 0, sectionProp = sec,
       synth_calls = [], console = []\<rparr>"

text \<open>
  What can happen to a mounted Reader: the four buttons of the player, a new \<^verbatim>\<open>section\<close>
  prop (the effect runs when its id differs), and the three callbacks of the host.
\<close>

datatype event =
    PlayClick
  | StopClick
  | PlayerToggle
  | PlayerClose
  | SectionChange bookSection
  | Boundary string string nat
  | End
  | Error string

fun step :: "reader \<Rightarrow> event \<Rightarrow> reader" where
  "step s PlayClick = handlePlay s"
| "step s StopClick = handleStop s"
| "step s PlayerToggle = s\<lparr>showPlayer := \<not> showPlayer s\<rparr>"
| "step s PlayerClose = (handleStop s)\<lparr>showPlayer := False\<rparr>"
| "step s (SectionChange sec) =
     (if s_id sec \<noteq> s_id (sectionProp s) then sectionEffect (s\<lparr>sectionProp := sec\<rparr>)
      else s\<lparr>sectionProp := sec\<rparr>)"
| "step s (Boundary tx name charIndex) = onboundary tx name charIndex s"
| "step s End = onend s"
| "step s (Error e) = onerror e s"

text \<open>
  The events that can leave an Idle controller with a progress other than 0: the completion
  callback, an error callback whose cause is neither canceled nor interrupted, and a progress
  callback that arrives while the controller is Idle. A run is free of them when no event of
  it is one of them in the state it meets.
\<close>

fun breaks_idle :: "reader \<Rightarrow> event \<Rightarrow> bool" where
  "breaks_idle s End = True"
| "breaks_idle s (Error e) = (e \<noteq> ''canceled'' \<and> e \<noteq> ''interrupted'')"
| "breaks_idle s (Boundary tx name charIndex) = (playback_state s = Idle)"
| "breaks_idle s ev = False"

fun free_run :: "reader \<Rightarrow> event list \<Rightarrow> bool" where
  "free_run s [] = True"
| "free_run s (e # es) = (\<not> breaks_idle s e \<and> free_run (step s e) es)"

text \<open>A small content model for concrete evaluations: one chapter, sections without blocks.\<close>

definition plain_section :: "string \<Rightarrow> bookSection" where
  "plain_section i = \<lparr>s_id = i, s_title = i, s_content = []\<rparr>"

definition example_book :: "string list \<Rightarrow> bookChapter list" where
  "example_book ids = [\<lparr>c_id = ''c1'', c_title = ''One'', sections = map plain_section ids\<rparr>]"

section \<open>Properties of the bookmark toggle\<close>

lemma toggle_absent_twice:
  "x \<notin> set bs \<Longrightarrow> toggleBookmark x (toggleBookmark x bs) = bs"
proof -
  assume a: "x \<notin> set bs"
  then have "filter (\<lambda>i. i \<noteq> x) bs = bs"
    by (induction bs) auto
  with a show ?thesis
    by (simp add: toggleBookmark_def)
qed

lemma toggle_present_twice:
  "x \<in> set bs \<Longrightarrow>
   toggleBookmark x (toggleBookmark x bs) = filter (\<lambda>i. i \<noteq> x) bs @ [x]"
  by (simp add: toggleBookmark_def)

lemma toggle_twice_set:
  "set (toggleBookmark x (toggleBookmark x bs)) = set bs"
proof (cases "x \<in> set bs")
  case True
  then show ?thesis
    by (auto simp: toggle_present_twice)
next
  case False
  then show ?thesis
    by (simp add: toggle_absent_twice)
qed

text \<open>
  C1, as stated, fails: toggling twice an identifier that is bookmarked but is not the last
  entry moves it to the end of the list.
\<close>

theorem toggle_twice_counterexample:
  "toggleBookmark ''a'' (toggleBookmark ''a'' [''a'', ''b'']) = [''b'', ''a''] \<and>
   toggleBookmark ''a'' (toggleBookmark ''a'' [''a'', ''b'']) \<noteq> [''a'', ''b'']"
  by (simp add: toggleBookmark_def)

text \<open>
  C1 (amended): toggling a bookmark twice on the same identifier always gives back the same
  members. The list itself, order included, is restored when the identifier was not bookmarked
  before; when it was, every occurrence is removed from its place and the identifier is
  appended once at the end.
\<close>

theorem toggle_twice:
  "set (toggleBookmark x (toggleBookmark x bs)) = set bs \<and>
   (x \<notin> set bs \<longrightarrow> toggleBookmark x (toggleBookmark x bs) = bs) \<and>
   (x \<in> set bs \<longrightarrow>
      toggleBookmark x (toggleBookmark x bs) = filter (\<lambda>i. i \<noteq> x) bs @ [x])"
  using toggle_twice_set toggle_absent_twice toggle_present_twice by blast

theorem toggle_twice_witness:
  "''c'' \<notin> set [''a'', ''b''] \<and>
   toggleBookmark ''c'' (toggleBookmark ''c'' [''a'', ''b'']) = [''a'', ''b''] \<and>
   ''a'' \<in> set [''a'', ''b''] \<and>
   toggleBookmark ''a'' (toggleBookmark ''a'' [''a'', ''b'']) = [''b'', ''a'']"
  using toggle_twice [of "''c''" "[''a'', ''b'']"] toggle_twice [of "''a''" "[''a'', ''b'']"]
  by simp

section \<open>Properties of the narration text\<close>

lemma foldl_items:
  "foldl (\<lambda>acc item. acc @ item @ ''. '' @ [nl]) tx items =
   tx @ concat (map (\<lambda>item. item @ ''. '' @ [nl]) items)"
  by (induction items arbitrary: tx) simp_all

lemma foldl_addBlock_filter:
  "foldl addBlock tx (filter (\<lambda>b. \<not> is_footnote b) bs) = foldl addBlock tx bs"
proof (induction bs arbitrary: tx)
  case Nil
  show ?case by simp
next
  case (Cons b bs)
  show ?case
    by (cases b) (simp_all add: Cons.IH)
qed

lemma addBlock_drop_source: "addBlock tx (drop_source b) = addBlock tx b"
  by (cases b) simp_all

lemma foldl_addBlock_drop_source:
  "foldl addBlock tx (map drop_source bs) = foldl addBlock tx bs"
  by (induction bs arbitrary: tx) (simp_all add: addBlock_drop_source)

lemma foldl_addBlock_concat:
  "foldl addBlock tx bs = tx @ concat (map blockNarration bs)"
proof (induction bs arbitrary: tx)
  case Nil
  show ?case by simp
next
  case (Cons b bs)
  have "addBlock tx b = tx @ blockNarration b"
    using foldl_items [of tx] by (cases b) simp_all
  with Cons.IH show ?case
    by simp
qed

lemma extractText_concat:
  "extractText sec = s_title sec @ ''. '' @ [nl, nl] @ concat (map blockNarration (s_content sec))"
  by (simp add: extractText_def foldl_addBlock_concat)

lemma extractText_append:
  "extractText (sec\<lparr>s_content := bs @ cs\<rparr>) =
     extractText (sec\<lparr>s_content := bs\<rparr>) @ concat (map blockNarration cs)"
  by (simp add: extractText_concat)

text \<open>
  C2: the narration text of every section is its title line followed by the narration of its
  blocks in document order, where a footnote block contributes nothing and a list block
  contributes one line (the item, a period, a space, a newline) per item, in order. So a
  footnote can be removed at any place, or all of them at once, without changing the text; a
  list block at any place adds exactly its item lines there; and the section titled T with
  blocks "Intro.", the list a, b and the footnote "skip me" gives exactly
  "T. \n\nIntro. \na. \nb. \n".
\<close>

theorem extractText_footnotes_lists:
  "extractText sec =
     s_title sec @ ''. '' @ [nl, nl] @ concat (map blockNarration (s_content sec)) \<and>
   extractText (sec\<lparr>s_content := bs @ Footnote t # cs\<rparr>) =
     extractText (sec\<lparr>s_content := bs @ cs\<rparr>) \<and>
   extractText sec =
     extractText (sec\<lparr>s_content := filter (\<lambda>b. \<not> is_footnote b) (s_content sec)\<rparr>) \<and>
   extractText (sec\<lparr>s_content := bs @ ListBlock items # cs\<rparr>) =
     extractText (sec\<lparr>s_content := bs\<rparr>) @
     concat (map (\<lambda>item. item @ ''. '' @ [nl]) items) @
     concat (map blockNarration cs) \<and>
   extractText (sec\<lparr>s_content := bs @ [ListBlock (item # items)]\<rparr>) =
     extractText (sec\<lparr>s_content := bs @ [ListBlock [item], ListBlock items]\<rparr>) \<and>
   addBlock tx (ListBlock items) = tx @ concat (map (\<lambda>item. item @ ''. '' @ [nl]) items) \<and>
   addBlock tx (Footnote t) = tx \<and>
   extractText \<lparr>s_id = i, s_title = ''T'',
       s_content = [Paragraph ''Intro.'', ListBlock [''a'', ''b''], Footnote ''skip me'']\<rparr> =
     ''T. '' @ [nl, nl] @ ''Intro. '' @ [nl] @ ''a. '' @ [nl] @ ''b. '' @ [nl]"
proof -
  have c1: "extractText sec =
      s_title sec @ ''. '' @ [nl, nl] @ concat (map blockNarration (s_content sec))"
    by (rule extractText_concat)
  have c2: "extractText (sec\<lparr>s_content := bs @ Footnote t # cs\<rparr>) =
      extractText (sec\<lparr>s_content := bs @ cs\<rparr>)"
    by (simp add: extractText_concat)
  have c3: "extractText sec =
      extractText (sec\<lparr>s_content := filter (\<lambda>b. \<not> is_footnote b) (s_content sec)\<rparr>)"
    by (simp add: extractText_def foldl_addBlock_filter)
  have c4: "extractText (sec\<lparr>s_content := bs @ ListBlock items # cs\<rparr>) =
      extractText (sec\<lparr>s_content := bs\<rparr>) @
      concat (map (\<lambda>item. item @ ''. '' @ [nl]) items) @
      concat (map blockNarration cs)"
    by (simp add: extractText_concat)
  have c5: "extractText (sec\<lparr>s_content := bs @ [ListBlock (item # items)]\<rparr>) =
      extractText (sec\<lparr>s_content := bs @ [ListBlock [item], ListBlock items]\<rparr>)"
    by (simp add: extractText_concat)
  have c6: "addBlock tx (ListBlock items) =
      tx @ concat (map (\<lambda>item. item @ ''. '' @ [nl]) items)"
    using foldl_items [of tx items] by simp
  have c7: "addBlock tx (Footnote t) = tx"
    by simp
  have c8: "extractText \<lparr>s_id = i, s_title = ''T'',
       s_content = [Paragraph ''Intro.'', ListBlock [''a'', ''b''], Footnote ''skip me'']\<rparr> =
     ''T. '' @ [nl, nl] @ ''Intro. '' @ [nl] @ ''a. '' @ [nl] @ ''b. '' @ [nl]"
    by (simp add: extractText_def)
  from c1 c2 c3 c4 c5 c6 c7 c8 show ?thesis
    by blast
qed

text \<open>
  C10: in every section, a quote block at any place adds its text, a period, a space and a
  newline to the narration text at that place, whatever its source attribution is; the
  narration text does not change when the source of a quote is replaced or when every source
  is removed. The rendered view is where the source appears: it shows the text of the quote
  and, after it, a source that is present and not empty.
\<close>

theorem extractText_quote_source:
  "extractText (sec\<lparr>s_content := bs @ Quote t src # cs\<rparr>) =
     extractText (sec\<lparr>s_content := bs\<rparr>) @ t @ ''. '' @ [nl] @
     concat (map blockNarration cs) \<and>
   extractText (sec\<lparr>s_content := bs @ Quote t src # cs\<rparr>) =
     extractText (sec\<lparr>s_content := bs @ Quote t src' # cs\<rparr>) \<and>
   extractText (sec\<lparr>s_content := map drop_source (s_content sec)\<rparr>) = extractText sec \<and>
   addBlock tx (Quote t src) = tx @ t @ ''. '' @ [nl] \<and>
   renderContent (sec\<lparr>s_content := bs @ Quote t (Some (c # w)) # cs\<rparr>) =
     renderContent (sec\<lparr>s_content := bs\<rparr>) @ [t, c # w] @
     renderContent (sec\<lparr>s_content := cs\<rparr>) \<and>
   extractText \<lparr>s_id = i, s_title = ''T'', s_content = [Quote ''q'' (Some ''who'')]\<rparr> =
     ''T. '' @ [nl, nl] @ ''q. '' @ [nl] \<and>
   renderContent \<lparr>s_id = i, s_title = ''T'', s_content = [Quote ''q'' (Some ''who'')]\<rparr> =
     [''q'', ''who'']"
proof -
  have q1: "extractText (sec\<lparr>s_content := bs @ Quote t src # cs\<rparr>) =
      extractText (sec\<lparr>s_content := bs\<rparr>) @ t @ ''. '' @ [nl] @
      concat (map blockNarration cs)" for src
    by (simp add: extractText_concat)
  have q2: "extractText (sec\<lparr>s_content := bs @ Quote t src # cs\<rparr>) =
      extractText (sec\<lparr>s_content := bs @ Quote t src' # cs\<rparr>)"
    by (simp add: extractText_concat)
  have q3: "extractText (sec\<lparr>s_content := map drop_source (s_content sec)\<rparr>) = extractText sec"
    by (simp add: extractText_def foldl_addBlock_drop_source)
  have q4: "addBlock tx (Quote t src) = tx @ t @ ''. '' @ [nl]"
    by simp
  have q5: "renderContent (sec\<lparr>s_content := bs @ Quote t (Some (c # w)) # cs\<rparr>) =
      renderContent (sec\<lparr>s_content := bs\<rparr>) @ [t, c # w] @
      renderContent (sec\<lparr>s_content := cs\<rparr>)"
    by (simp add: renderContent_def)
  have q6: "extractText \<lparr>s_id = i, s_title = ''T'', s_content = [Quote ''q'' (Some ''who'')]\<rparr> =
      ''T. '' @ [nl, nl] @ ''q. '' @ [nl]"
    by (simp add: extractText_def)
  have q7: "renderContent \<lparr>s_id = i, s_title = ''T'',
      s_content = [Quote ''q'' (Some ''who'')]\<rparr> = [''q'', ''who'']"
    by (simp add: renderContent_def)
  from q1 q2 q3 q4 q5 q6 q7 show ?thesis
    by blast
qed

section \<open>Properties of the navigation\<close>

lemma findIndexFrom_takeWhile:
  "findIndexFrom P i xs =
     (if \<exists>x \<in> set xs. P x then i + int (length (takeWhile (\<lambda>x. \<not> P x) xs)) else - 1)"
  by (induction xs arbitrary: i) auto

lemma findIndex_miss: "\<forall>x \<in> set xs. \<not> P x \<Longrightarrow> findIndex P xs = - 1"
  by (simp add: findIndex_def findIndexFrom_takeWhile)

lemma takeWhile_distinct_nth:
  "distinct (map f xs) \<Longrightarrow> j < length xs \<Longrightarrow>
   length (takeWhile (\<lambda>s. f s \<noteq> f (xs ! j)) xs) = j"
proof (induction xs arbitrary: j)
  case Nil
  then show ?case by simp
next
  case (Cons a xs)
  show ?case
  proof (cases j)
    case 0
    then show ?thesis by simp
  next
    case (Suc k)
    with Cons.prems have k: "k < length xs" and d: "distinct (map f xs)"
      and n: "f a \<notin> f ` set xs"
      by auto
    from k have "f (xs ! k) \<in> f ` set xs"
      by simp
    with n have "f a \<noteq> f (xs ! k)"
      by metis
    with Suc Cons.IH [OF d k] show ?thesis
      by simp
  qed
qed

lemma findIndex_distinct_nth:
  assumes "distinct (map f xs)" and "j < length xs"
  shows "findIndex (\<lambda>s. f s = f (xs ! j)) xs = int j"
proof -
  from assms(2) have "\<exists>s \<in> set xs. f s = f (xs ! j)"
    by auto
  then show ?thesis
    using takeWhile_distinct_nth [OF assms]
    by (simp add: findIndex_def findIndexFrom_takeWhile)
qed

lemma successor_nth:
  assumes "distinct (map s_id (allSections bookData))"
    and "''TOC'' \<notin> set (map s_id (allSections bookData))"
    and "Suc j < length (allSections bookData)"
  shows "successor bookData (s_id (allSections bookData ! j)) =
           Some (s_id (allSections bookData ! Suc j))"
proof -
  let ?all = "allSections bookData"
  from assms(3) have j: "j < length ?all"
    by simp
  then have "s_id (?all ! j) \<in> set (map s_id ?all)"
    by simp
  with assms(2) have toc: "s_id (?all ! j) \<noteq> ''TOC''"
    by metis
  have idx: "findIndex (\<lambda>s. s_id s = s_id (?all ! j)) ?all = int j"
    using findIndex_distinct_nth [OF assms(1) j] .
  from assms(3) have "js_nth ?all (int j + 1) = Some (?all ! Suc j)"
    by (simp add: js_nth_def nat_add_distrib)
  with toc idx assms(3) show ?thesis
    by (simp add: successor_def prevNextSection_def Let_def)
qed

lemma predecessor_Suc_nth:
  assumes "distinct (map s_id (allSections bookData))"
    and "''TOC'' \<notin> set (map s_id (allSections bookData))"
    and "Suc j < length (allSections bookData)"
  shows "predecessor bookData (s_id (allSections bookData ! Suc j)) =
           Some (s_id (allSections bookData ! j))"
proof -
  let ?all = "allSections bookData"
  from assms(3) have "s_id (?all ! Suc j) \<in> set (map s_id ?all)"
    by simp
  with assms(2) have toc: "s_id (?all ! Suc j) \<noteq> ''TOC''"
    by metis
  have idx: "findIndex (\<lambda>s. s_id s = s_id (?all ! Suc j)) ?all = int (Suc j)"
    using findIndex_distinct_nth [OF assms(1) assms(3)] .
  from assms(3) have "js_nth ?all (int (Suc j) - 1) = Some (?all ! j)"
    by (simp add: js_nth_def)
  with toc idx show ?thesis
    by (simp add: predecessor_def prevNextSection_def Let_def)
qed

lemma prevNextSection_miss:
  assumes "x \<noteq> ''TOC''" and "x \<notin> set (map s_id (allSections bookData))"
  shows "prevNextSection bookData x =
           Inr \<lparr>prevSection = Some (Link ''TOC'' toc_title),
                nextSection = (case allSections bookData of
                                 [] \<Rightarrow> None | s0 # _ \<Rightarrow> Some (Sec s0))\<rparr>"
proof -
  from assms(2) have "findIndex (\<lambda>s. s_id s = x) (allSections bookData) = - 1"
    by (intro findIndex_miss) auto
  with assms(1) show ?thesis
    by (cases "allSections bookData") (simp_all add: prevNextSection_def js_nth_def)
qed

text \<open>
  C4 (the code at a lookup miss): with two sections s1, s2 and the unknown identifier zzz,
  the active section falls back to s1 at index 0 of the first chapter and the predecessor is
  the table-of-contents sentinel, but the successor is s1 itself, the first section of the
  flattened order, not the second one.
\<close>

theorem lookup_miss_navigation:
  "activeChapterInfo (example_book [''s1'', ''s2'']) ''zzz'' =
     Inr (Some \<lparr>info_title = ''One'', info_index = 0, info_total = 2,
                info_section = Some (plain_section ''s1'')\<rparr>) \<and>
   prevNextSection (example_book [''s1'', ''s2'']) ''zzz'' =
     Inr \<lparr>prevSection = Some (Link ''TOC'' toc_title),
          nextSection = Some (Sec (plain_section ''s1''))\<rparr> \<and>
   successor (example_book [''s1'', ''s2'']) ''zzz'' = Some ''s1'' \<and>
   successor (example_book [''s1'', ''s2'']) ''zzz'' \<noteq> Some ''s2''"
  by (simp add: activeChapterInfo_def prevNextSection_def successor_def example_book_def
      plain_section_def allSections_def findIndex_def js_nth_def)

text \<open>
  C7, as stated, fails where a section identifier is the table-of-contents sentinel: with the
  sections a, b, TOC, c the successor of b is TOC, and at TOC the application shows the table
  of contents, which has no predecessor.
\<close>

theorem predecessor_successor_counterexample:
  "distinct (map s_id (allSections (example_book [''a'', ''b'', ''TOC'', ''c'']))) \<and>
   ''b'' \<in> set (map s_id (allSections (example_book [''a'', ''b'', ''TOC'', ''c'']))) \<and>
   ''b'' \<noteq> s_id (hd (allSections (example_book [''a'', ''b'', ''TOC'', ''c'']))) \<and>
   ''b'' \<noteq> s_id (last (allSections (example_book [''a'', ''b'', ''TOC'', ''c'']))) \<and>
   successor (example_book [''a'', ''b'', ''TOC'', ''c'']) ''b'' = Some ''TOC'' \<and>
   predecessor (example_book [''a'', ''b'', ''TOC'', ''c'']) ''TOC'' = None \<and>
   Option.bind (successor (example_book [''a'', ''b'', ''TOC'', ''c'']) ''b'')
     (predecessor (example_book [''a'', ''b'', ''TOC'', ''c''])) \<noteq> Some ''b''"
  by (simp add: prevNextSection_def successor_def predecessor_def example_book_def
      plain_section_def allSections_def findIndex_def js_nth_def)

text \<open>
  C7 (amended): in a content model whose section identifiers are pairwise distinct and all
  differ from the table-of-contents sentinel TOC, every section identifier x that is present
  and is neither the first nor the last section of the flattened document order satisfies
  predecessor(successor(x)) = x.
\<close>

theorem predecessor_successor:
  assumes "distinct (map s_id (allSections bookData))"
    and "''TOC'' \<notin> set (map s_id (allSections bookData))"
    and "x \<in> set (map s_id (allSections bookData))"
    and "x \<noteq> s_id (hd (allSections bookData))"
    and "x \<noteq> s_id (last (allSections bookData))"
  shows "Option.bind (successor bookData x) (predecessor bookData) = Some x"
proof -
  let ?all = "allSections bookData"
  from assms(3) obtain j where j: "j < length ?all" and x: "x = s_id (?all ! j)"
    by (auto simp: in_set_conv_nth)
  from j have ne: "?all \<noteq> []"
    by auto
  have "j \<noteq> length ?all - 1"
  proof
    assume "j = length ?all - 1"
    with ne x have "x = s_id (last ?all)"
      by (simp add: last_conv_nth)
    with assms(5) show False
      by simp
  qed
  with j have sj: "Suc j < length ?all"
    by arith
  show ?thesis
    using successor_nth [OF assms(1) assms(2) sj] predecessor_Suc_nth [OF assms(1) assms(2) sj] x
    by simp
qed

theorem predecessor_successor_witness:
  "distinct (map s_id (allSections (example_book [''a'', ''b'', ''c'']))) \<and>
   ''TOC'' \<notin> set (map s_id (allSections (example_book [''a'', ''b'', ''c'']))) \<and>
   ''b'' \<in> set (map s_id (allSections (example_book [''a'', ''b'', ''c'']))) \<and>
   ''b'' \<noteq> s_id (hd (allSections (example_book [''a'', ''b'', ''c'']))) \<and>
   ''b'' \<noteq> s_id (last (allSections (example_book [''a'', ''b'', ''c'']))) \<and>
   Option.bind (successor (example_book [''a'', ''b'', ''c'']) ''b'')
     (predecessor (example_book [''a'', ''b'', ''c''])) = Some ''b''"
proof -
  have h: "distinct (map s_id (allSections (example_book [''a'', ''b'', ''c''])))"
    "''TOC'' \<notin> set (map s_id (allSections (example_book [''a'', ''b'', ''c''])))"
    "''b'' \<in> set (map s_id (allSections (example_book [''a'', ''b'', ''c''])))"
    "''b'' \<noteq> s_id (hd (allSections (example_book [''a'', ''b'', ''c''])))"
    "''b'' \<noteq> s_id (last (allSections (example_book [''a'', ''b'', ''c''])))"
    by (simp_all add: example_book_def plain_section_def allSections_def)
  from h predecessor_successor [OF h] show ?thesis
    by blast
qed

section \<open>Properties of the settings and of the font size\<close>

lemma settings_defaults:
  "fontSizeIndex_init Missing = Num 2"
  "fontSizeIndex_init Throws = Num 2"
  "isDarkMode_init Missing = False"
  "isDarkMode_init Throws = False"
  "saved \<noteq> ''true'' \<Longrightarrow> isDarkMode_init (Stored saved) = False"
  "bookmarks_init JSON_parse Missing = JArray []"
  "bookmarks_init JSON_parse Throws = JArray []"
  "JSON_parse saved = None \<Longrightarrow> bookmarks_init JSON_parse (Stored saved) = JArray []"
  by (simp_all add: fontSizeIndex_init_def isDarkMode_init_def bookmarks_init_def)

text \<open>
  C5 (the code at an unparsable font-size value): with the string abc stored under the
  font-size key the level loaded at startup is NaN, not the default 2; an absent value and a
  failing read do give 2.
\<close>

theorem fontSizeIndex_unparsable:
  "fontSizeIndex_init (Stored ''abc'') = NaN \<and>
   fontSizeIndex_init (Stored ''abc'') \<noteq> Num 2 \<and>
   fontSizeIndex_init Missing = Num 2 \<and>
   fontSizeIndex_init Throws = Num 2"
  by (simp add: fontSizeIndex_init_def parseInt10_def is_space_def is_digit_def)

lemma font_step_in_range: "level_in_range l \<Longrightarrow> level_in_range (font_step l c)"
  by (cases l; cases c) (auto simp: FONT_SIZES_def)

lemma font_run_in_range: "level_in_range l \<Longrightarrow> level_in_range (foldl font_step l calls)"
  by (induction calls arbitrary: l) (simp_all add: font_step_in_range)

text \<open>
  C8: there are N = 5 font-size levels; from a level in [0, 4], and so from the default level
  of a fresh session, any sequence of increment and decrement calls leaves the level in
  [0, 4].
\<close>

theorem font_level_bounded:
  "length FONT_SIZES = 5 \<and>
   (0 \<le> n \<and> n \<le> 4 \<longrightarrow>
      (\<exists>m. foldl font_step (Num n) calls = Num m \<and> 0 \<le> m \<and> m \<le> 4)) \<and>
   (\<exists>m. foldl font_step (fontSizeIndex_init Missing) calls = Num m \<and> 0 \<le> m \<and> m \<le> 4)"
proof -
  have len: "length FONT_SIZES = 5"
    by (simp add: FONT_SIZES_def)
  have r: "\<exists>m. l = Num m \<and> 0 \<le> m \<and> m \<le> 4" if "level_in_range l" for l
    using that len by (cases l) simp_all
  have a: "\<exists>m. foldl font_step (Num n) calls = Num m \<and> 0 \<le> m \<and> m \<le> 4"
    if "0 \<le> n \<and> n \<le> 4"
  proof -
    from that len have "level_in_range (Num n)"
      by simp
    then show ?thesis
      by (intro r font_run_in_range)
  qed
  have "level_in_range (fontSizeIndex_init Missing)"
    by (simp add: fontSizeIndex_init_def len)
  then have b: "\<exists>m. foldl font_step (fontSizeIndex_init Missing) calls = Num m \<and> 0 \<le> m \<and> m \<le> 4"
    by (intro r font_run_in_range)
  from len a b show ?thesis
    by blast
qed

theorem font_level_bounded_witness:
  "(0::int) \<le> 4 \<and> (4::int) \<le> 4 \<and>
   foldl font_step (Num 4) [Increase, Increase, Decrease] = Num 3 \<and>
   foldl font_step (Num 0) [Decrease, Decrease, Increase] = Num 1 \<and>
   foldl font_step (fontSizeIndex_init Missing) [Increase, Increase, Increase] = Num 4"
  using font_level_bounded [of 4 "[Increase, Increase, Decrease]"]
  by (simp add: FONT_SIZES_def fontSizeIndex_init_def)

section \<open>Properties of the playback\<close>

lemma addBlock_length: "length tx \<le> length (addBlock tx b)"
proof (cases b)
  case (ListBlock items)
  then show ?thesis
    using foldl_items [of tx items] by simp
qed simp_all

lemma foldl_addBlock_length: "length tx \<le> length (foldl addBlock tx bs)"
proof (induction bs arbitrary: tx)
  case Nil
  show ?case by simp
next
  case (Cons b bs)
  have "length tx \<le> length (addBlock tx b)"
    by (rule addBlock_length)
  also have "\<dots> \<le> length (foldl addBlock (addBlock tx b) bs)"
    by (rule Cons.IH)
  finally show ?case by simp
qed

lemma extractText_nonempty: "extractText sec \<noteq> []"
proof -
  have "length (s_title sec @ ''. '' @ [nl, nl]) \<le> length (extractText sec)"
    unfolding extractText_def by (rule foldl_addBlock_length)
  then show ?thesis by auto
qed

lemma handleStop_idle:
  "playback_state (handleStop s) = Idle" "progress (handleStop s) = 0"
  "utteranceRef (handleStop s) = None"
  by (simp_all add: handleStop_def playback_state_def)

lemma step_keeps_idle_progress:
  assumes "playback_state s = Idle \<longrightarrow> progress s = 0" and "\<not> breaks_idle s e"
  shows "playback_state (step s e) = Idle \<longrightarrow> progress (step s e) = 0"
proof (cases e)
  case PlayClick
  with assms(1) show ?thesis
    by (auto simp: handlePlay_def playback_state_def Let_def split: if_splits)
next
  case StopClick
  then show ?thesis
    by (simp add: handleStop_def)
next
  case PlayerToggle
  with assms(1) show ?thesis
    by (simp add: playback_state_def)
next
  case PlayerClose
  then show ?thesis
    by (simp add: handleStop_def)
next
  case (SectionChange sec)
  with assms(1) show ?thesis
    by (simp add: sectionEffect_def handleStop_def playback_state_def)
next
  case (Boundary tx name charIndex)
  with assms(2) have "playback_state s \<noteq> Idle"
    by simp
  with Boundary show ?thesis
    by (auto simp: onboundary_def playback_state_def Let_def split: if_splits)
next
  case End
  with assms(2) show ?thesis
    by simp
next
  case (Error c)
  with assms show ?thesis
    by (simp add: onerror_def)
qed

lemma run_keeps_idle_progress:
  "playback_state s = Idle \<longrightarrow> progress s = 0 \<Longrightarrow> free_run s es \<Longrightarrow>
   playback_state (foldl step s es) = Idle \<longrightarrow> progress (foldl step s es) = 0"
proof (induction es arbitrary: s)
  case Nil
  then show ?case by simp
next
  case (Cons e es)
  from Cons.prems have "playback_state (step s e) = Idle \<longrightarrow> progress (step s e) = 0"
    by (intro step_keeps_idle_progress) simp_all
  moreover from Cons.prems have "free_run (step s e) es"
    by simp
  ultimately show ?case
    using Cons.IH [of "step s e"] by simp
qed

lemma mount_idle:
  "playback_state (mount hasSynth sec) = Idle" "progress (mount hasSynth sec) = 0"
  by (simp_all add: mount_def sectionEffect_def handleStop_def playback_state_def)

lemma breaks_idle_examples:
  "playback_state (foldl step (mount True (plain_section ''x''))
     [PlayClick, Boundary (extractText (plain_section ''x'')) ''word'' 1, Error ''network''])
     = Idle"
  "0 < progress (foldl step (mount True (plain_section ''x''))
     [PlayClick, Boundary (extractText (plain_section ''x'')) ''word'' 1, Error ''network''])"
  "playback_state (foldl step (mount True (plain_section ''x''))
     [Boundary (extractText (plain_section ''x'')) ''word'' 1]) = Idle"
  "0 < progress (foldl step (mount True (plain_section ''x''))
     [Boundary (extractText (plain_section ''x'')) ''word'' 1])"
  by (simp_all add: mount_def sectionEffect_def handleStop_def handlePlay_def onboundary_def
      onerror_def playback_state_def extractText_def plain_section_def Let_def)

text \<open>
  C3, as stated, fails: after play() the completion callback of the host leaves the
  controller Idle with progress 100.
\<close>

theorem idle_progress_counterexample:
  "playback_state (foldl step (mount True (plain_section ''x'')) [PlayClick, End]) = Idle \<and>
   progress (foldl step (mount True (plain_section ''x'')) [PlayClick, End]) = 100 \<and>
   progress (foldl step (mount True (plain_section ''x'')) [PlayClick, End]) \<noteq> 0"
  by (simp add: mount_def sectionEffect_def handleStop_def handlePlay_def onend_def
      playback_state_def extractText_nonempty)

text \<open>
  C3 (amended): a freshly mounted Playback Controller is Idle with progress 0, and in every
  state reached from it by a sequence of play(), stop(), section-change, player show/hide and
  host-callback operations that holds no completion callback, no error callback with a cause
  other than canceled or interrupted, and no progress callback arriving while the controller
  is Idle, if the playback state is Idle then progress equals 0. The same holds from every
  state in which Idle implies progress 0, as the state after stop() is. The completion
  callback leaves the controller Idle with progress 100.
\<close>

theorem idle_progress:
  "playback_state (mount hasSynth sec) = Idle \<and> progress (mount hasSynth sec) = 0 \<and>
   (free_run (mount hasSynth sec) es \<longrightarrow>
      (playback_state (foldl step (mount hasSynth sec) es) = Idle \<longrightarrow>
       progress (foldl step (mount hasSynth sec) es) = 0)) \<and>
   ((playback_state s = Idle \<longrightarrow> progress s = 0) \<and> free_run s es \<longrightarrow>
      (playback_state (foldl step s es) = Idle \<longrightarrow> progress (foldl step s es) = 0)) \<and>
   playback_state (handleStop s) = Idle \<and> progress (handleStop s) = 0 \<and>
   playback_state (onend s) = Idle \<and> progress (onend s) = 100"
proof -
  have m: "playback_state (mount hasSynth sec) = Idle" "progress (mount hasSynth sec) = 0"
    by (rule mount_idle)+
  have r1: "playback_state (foldl step (mount hasSynth sec) es) = Idle \<longrightarrow>
      progress (foldl step (mount hasSynth sec) es) = 0"
    if "free_run (mount hasSynth sec) es"
    using that m by (intro run_keeps_idle_progress) simp_all
  have r2: "playback_state (foldl step s es) = Idle \<longrightarrow> progress (foldl step s es) = 0"
    if "(playback_state s = Idle \<longrightarrow> progress s = 0) \<and> free_run s es"
    using that by (intro run_keeps_idle_progress) simp_all
  have e: "playback_state (onend s) = Idle \<and> progress (onend s) = 100"
    by (simp add: onend_def playback_state_def)
  from m r1 r2 e handleStop_idle(1,2) [of s] show ?thesis
    by blast
qed

theorem idle_progress_witness:
  "free_run (mount True (plain_section ''x''))
     [PlayClick, Boundary (extractText (plain_section ''x'')) ''word'' 1, PlayClick, Error ''interrupted'', StopClick] \<and>
   playback_state (foldl step (mount True (plain_section ''x''))
     [PlayClick, Boundary (extractText (plain_section ''x'')) ''word'' 1]) = Playing \<and>
   0 < progress (foldl step (mount True (plain_section ''x''))
     [PlayClick, Boundary (extractText (plain_section ''x'')) ''word'' 1]) \<and>
   playback_state (foldl step (mount True (plain_section ''x''))
     [PlayClick, Boundary (extractText (plain_section ''x'')) ''word'' 1, PlayClick, Error ''interrupted'', StopClick])
     = Idle \<and>
   progress (foldl step (mount True (plain_section ''x''))
     [PlayClick, Boundary (extractText (plain_section ''x'')) ''word'' 1, PlayClick, Error ''interrupted'', StopClick]) = 0"
proof -
  have f: "free_run (mount True (plain_section ''x''))
     [PlayClick, Boundary (extractText (plain_section ''x'')) ''word'' 1, PlayClick, Error ''interrupted'', StopClick]"
    by (simp add: mount_def sectionEffect_def handleStop_def handlePlay_def onboundary_def
        onerror_def playback_state_def extractText_def plain_section_def Let_def)
  have p: "playback_state (foldl step (mount True (plain_section ''x''))
     [PlayClick, Boundary (extractText (plain_section ''x'')) ''word'' 1]) = Playing \<and>
   0 < progress (foldl step (mount True (plain_section ''x''))
     [PlayClick, Boundary (extractText (plain_section ''x'')) ''word'' 1])"
    by (simp add: mount_def sectionEffect_def handleStop_def handlePlay_def onboundary_def
        playback_state_def extractText_def plain_section_def Let_def)
  have i: "playback_state (foldl step (mount True (plain_section ''x''))
     [PlayClick, Boundary (extractText (plain_section ''x'')) ''word'' 1, PlayClick, Error ''interrupted'', StopClick])
     = Idle"
    by (simp add: handleStop_idle)
  from f p i idle_progress [of True "plain_section ''x''"
      "[PlayClick, Boundary (extractText (plain_section ''x'')) ''word'' 1, PlayClick, Error ''interrupted'', StopClick]"]
  show ?thesis
    by blast
qed




text \<open>
  C9: when the section shown by the Reader changes, whatever the state of the controller,
  the controller goes to Idle with progress 0, drops its utterance, hides the player and,
  when the host has a speech synthesis object, ends with a cancel call on it; a freshly
  mounted Reader is Idle with progress 0 and a hidden player as well.
\<close>

theorem section_change_stops:
  assumes "s_id sec \<noteq> s_id (sectionProp s)"
  shows "playback_state (step s (SectionChange sec)) = Idle \<and>
         progress (step s (SectionChange sec)) = 0 \<and>
         \<not> showPlayer (step s (SectionChange sec)) \<and>
         utteranceRef (step s (SectionChange sec)) = None \<and>
         synth_calls (step s (SectionChange sec)) =
           (if synthRef s then synth_calls s @ [Cancel] else synth_calls s) \<and>
         step s (SectionChange sec) = (handleStop (s\<lparr>sectionProp := sec\<rparr>))\<lparr>showPlayer := False\<rparr> \<and>
         playback_state (mount hasSynth sec) = Idle \<and>
         progress (mount hasSynth sec) = 0 \<and>
         \<not> showPlayer (mount hasSynth sec)"
  using assms
  by (simp add: sectionEffect_def handleStop_def playback_state_def mount_def)

theorem section_change_stops_witness:
  "s_id (plain_section ''b'') \<noteq>
     s_id (sectionProp (step (mount True (plain_section ''a'')) PlayClick)) \<and>
   playback_state (step (mount True (plain_section ''a'')) PlayClick) = Playing \<and>
   playback_state (step (step (mount True (plain_section ''a'')) PlayClick)
     (SectionChange (plain_section ''b''))) = Idle \<and>
   progress (step (step (mount True (plain_section ''a'')) PlayClick)
     (SectionChange (plain_section ''b''))) = 0 \<and>
   \<not> showPlayer (step (step (mount True (plain_section ''a'')) PlayClick)
     (SectionChange (plain_section ''b'')))"
proof -
  have h: "s_id (plain_section ''b'') \<noteq>
     s_id (sectionProp (step (mount True (plain_section ''a'')) PlayClick))"
    by (simp add: mount_def sectionEffect_def handleStop_def handlePlay_def plain_section_def
        Let_def)
  have p: "playback_state (step (mount True (plain_section ''a'')) PlayClick) = Playing"
    by (simp add: mount_def sectionEffect_def handleStop_def handlePlay_def playback_state_def
        extractText_nonempty Let_def)
  from h p section_change_stops [OF h] show ?thesis
    by blast
qed

end
